theory Spec2Isabelle
  imports Complex_Main "HOL-Library.AList" "HOL-Library.Multiset"
begin

section \<open>JavaScript objects used as dictionaries\<close>

text \<open>
  The task store, the goal table and the per-task groups of a report are plain JavaScript
  objects indexed by a string (\<^verbatim>\<open>tasks[taskId]\<close>, \<^verbatim>\<open>goals[taskId]\<close>,
  \<^verbatim>\<open>grouped[session.task]\<close>). Such an object is an association list of its own
  properties in insertion order. Reading a property that the object does not own falls
  through to \<^verbatim>\<open>Object.prototype\<close>, whose members (functions, and the prototype
  itself behind \<^verbatim>\<open>__proto__\<close>) are truthy values; only a name found neither on
  the object nor on the prototype reads as \<^verbatim>\<open>undefined\<close>. A string is a list of
  code units below 256; a timestamp is the integer number of milliseconds since the
  epoch (what \<^verbatim>\<open>getTime()\<close> returns and an ISO string stores).
  JSON text with an own member called \<^verbatim>\<open>__proto__\<close> is not covered: no
  operation below writes one.
\<close>

type_synonym 'a js_object = "(string \<times> 'a) list"

datatype 'a js_prop = Undefined | Own 'a | Inherited

definition object_prototype_keys :: "string list" where
  "object_prototype_keys =
     [''constructor'', ''__defineGetter__'', ''__defineSetter__'', ''hasOwnProperty'',
      ''__lookupGetter__'', ''__lookupSetter__'', ''isPrototypeOf'',
      ''propertyIsEnumerable'', ''toString'', ''valueOf'', ''__proto__'',
      ''toLocaleString'']"

definition js_get :: "'a js_object \<Rightarrow> string \<Rightarrow> 'a js_prop" where
  "js_get obj k =
     (case map_of obj k of
        Some v \<Rightarrow> Own v
      | None \<Rightarrow> if k \<in> set object_prototype_keys then Inherited else Undefined)"

text \<open>
  Enumeration (\<^verbatim>\<open>Object.keys\<close>, \<^verbatim>\<open>Object.values\<close>) lists the own properties whose
  name is a canonical array index first, in ascending numeric order, and the others
  after them in insertion order.
\<close>

definition digit_chars :: "char list" where
  "digit_chars = ''0123456789''"

definition index_value :: "string \<Rightarrow> int" where
  "index_value s = foldl (\<lambda>n c. 10 * n + (of_char c - 48)) 0 s"

definition is_array_index :: "string \<Rightarrow> bool" where
  "is_array_index s =
     (s \<noteq> [] \<and> list_all (\<lambda>c. c \<in> set digit_chars) s \<and>
      (hd s \<noteq> CHR ''0'' \<or> length s = 1) \<and> index_value s < 4294967295)"

definition js_entries :: "'a js_object \<Rightarrow> (string \<times> 'a) list" where
  "js_entries obj =
     sort_key (\<lambda>e. index_value (fst e)) (filter (\<lambda>e. is_array_index (fst e)) obj)
     @ filter (\<lambda>e. \<not> is_array_index (fst e)) obj"

definition js_keys :: "'a js_object \<Rightarrow> string list" where
  "js_keys obj = map fst (js_entries obj)"

definition js_values :: "'a js_object \<Rightarrow> 'a list" where
  "js_values obj = map snd (js_entries obj)"

text \<open>\<^verbatim>\<open>new Date(x)\<close> of a stored timestamp; \<^verbatim>\<open>new Date(null)\<close> is the epoch.\<close>

definition date_of :: "int option \<Rightarrow> int" where
  "date_of x = (case x of None \<Rightarrow> 0 | Some t \<Rightarrow> t)"

text \<open>Truthiness of a nullable string: \<^verbatim>\<open>null\<close> and the empty string are falsy.\<close>

definition truthy :: "string option \<Rightarrow> bool" where
  "truthy x = (case x of None \<Rightarrow> False | Some s \<Rightarrow> s \<noteq> [])"

definition js_whitespace :: "char \<Rightarrow> bool" where
  "js_whitespace c = ((of_char c :: nat) \<in> {9, 10, 11, 12, 13, 32, 160})"

definition trim :: "string \<Rightarrow> string" where
  "trim s = rev (dropWhile js_whitespace (rev (dropWhile js_whitespace s)))"


section \<open>Data model\<close>

text \<open>
  Field names follow the source with a prefix per record: \<open>s_\<close> for a session,
  \<open>t_\<close> for a task record. A task's \<^verbatim>\<open>goals\<close> member is absent (\<open>None\<close>) until
  \<^verbatim>\<open>saveGoals\<close> writes one.
\<close>

record session =
  s_task :: string
  s_startTime :: int
  s_endTime :: int
  s_duration :: int

record task =
  t_id :: string
  t_name :: string
  t_created :: int
  t_totalTime :: int
  t_sessions :: "session list"
  t_goals :: "int js_object option"

record tracking_state =
  currentTask :: "string option"
  startTime :: "int option"
  pausedTime :: "int option"
  isPaused :: bool
  sessions :: "session list"

record state =
  tasks :: "task js_object"
  tracking :: tracking_state

text \<open>What \<^verbatim>\<open>loadTasks\<close> and \<^verbatim>\<open>loadTracking\<close> return before anything was saved.\<close>

definition initial_state :: state where
  "initial_state =
     \<lparr>tasks = [],
      tracking = \<lparr>currentTask = None, startTime = None, pausedTime = None,
                  isPaused = False, sessions = []\<rparr>\<rparr>"

datatype error =
    TaskNameEmpty
  | TaskNameInvalid
  | TaskAlreadyExists string
  | TaskDoesNotExist string
  | AlreadyTracking string
  | NoActiveSession
  | NoActiveSessionToPause
  | AlreadyPaused
  | NoPausedSession
  | InvalidGoalPeriod
  | GoalNotPositive
  | NoGoalForPeriod string string
  | NoGoals string
  | TypeError


section \<open>Task store (taskManager.js)\<close>

definition task_name_chars :: "char list" where
  "task_name_chars =
     ''abcdefghijklmnopqrstuvwxyzABCDEFGHIJKLMNOPQRSTUVWXYZ0123456789_-''"

definition isValidTaskName :: "string \<Rightarrow> bool" where
  "isValidTaskName name =
     (if name = [] then False else list_all (\<lambda>c. c \<in> set task_name_chars) name)"

definition createTask :: "string \<Rightarrow> int \<Rightarrow> state \<Rightarrow> error + (task \<times> state)" where
  "createTask taskName now st =
     (if taskName = [] \<or> trim taskName = [] then Inl TaskNameEmpty
      else if \<not> isValidTaskName taskName then Inl TaskNameInvalid
      else
        (case js_get (tasks st) taskName of
           Undefined \<Rightarrow>
             (let newTask = \<lparr>t_id = taskName, t_name = taskName, t_created = now,
                             t_totalTime = 0, t_sessions = [], t_goals = None\<rparr>
              in Inr (newTask, st\<lparr>tasks := AList.update taskName newTask (tasks st)\<rparr>))
         | _ \<Rightarrow> Inl (TaskAlreadyExists taskName)))"

text \<open>
  \<^verbatim>\<open>tasks[taskId] || null\<close>: \<open>Undefined\<close> stands for the \<^verbatim>\<open>null\<close> result,
  \<open>Inherited\<close> for a member of the prototype, which is truthy like a task record.
\<close>

definition getTask :: "string \<Rightarrow> state \<Rightarrow> task js_prop" where
  "getTask taskId st = js_get (tasks st) taskId"

text \<open>\<^verbatim>\<open>delete tasks[taskId]\<close> removes an own property and does nothing otherwise.\<close>

definition deleteTask :: "string \<Rightarrow> state \<Rightarrow> error + state" where
  "deleteTask taskId st =
     (case js_get (tasks st) taskId of
        Undefined \<Rightarrow> Inl (TaskDoesNotExist taskId)
      | _ \<Rightarrow> Inr (st\<lparr>tasks := AList.delete taskId (tasks st)\<rparr>))"


section \<open>Tracking state machine (timeTracker.js)\<close>

text \<open>
  The clock reading \<^verbatim>\<open>new Date()\<close> of an operation is its argument \<open>now\<close>.
  A failing operation saves nothing, so it returns no state. The state is what the two
  JSON files hold: in stopTracking, when \<^verbatim>\<open>getTask\<close> returns an inherited member,
  the session is pushed onto that member and \<^verbatim>\<open>tasks[name] = task\<close> stores a
  function (or, for \<^verbatim>\<open>__proto__\<close>, sets the prototype again), which
  \<^verbatim>\<open>JSON.stringify\<close> leaves out, so the saved task store is the loaded one.
\<close>

record stop_result =
  r_duration :: int
  r_session :: session

definition startTracking :: "string \<Rightarrow> int \<Rightarrow> state \<Rightarrow> error + (int \<times> state)" where
  "startTracking taskId now st =
     (case getTask taskId st of
        Undefined \<Rightarrow> Inl (TaskDoesNotExist taskId)
      | _ \<Rightarrow>
          if truthy (currentTask (tracking st))
          then Inl (AlreadyTracking (the (currentTask (tracking st))))
          else Inr (now,
                 st\<lparr>tracking :=
                      \<lparr>currentTask = Some taskId, startTime = Some now, pausedTime = None,
                       isPaused = False, sessions = sessions (tracking st)\<rparr>\<rparr>))"

definition stopTracking :: "int \<Rightarrow> state \<Rightarrow> error + (stop_result \<times> state)" where
  "stopTracking now st =
     (if \<not> truthy (currentTask (tracking st)) then Inl NoActiveSession
      else
        (let cur = the (currentTask (tracking st));
             endT = now;
             startT = date_of (startTime (tracking st));
             duration = (endT - startT)
                        - (case pausedTime (tracking st) of
                             None \<Rightarrow> 0
                           | Some p \<Rightarrow> endT - p);
             sess = \<lparr>s_task = cur, s_startTime = startT, s_endTime = endT,
                     s_duration = duration\<rparr>;
             tasks' =
               (case getTask cur st of
                  Own t \<Rightarrow>
                    AList.update cur
                      (t\<lparr>t_sessions := t_sessions t @ [sess],
                         t_totalTime := t_totalTime t + duration\<rparr>)
                      (tasks st)
                | _ \<Rightarrow> tasks st)
         in Inr (\<lparr>r_duration = duration, r_session = sess\<rparr>,
                 \<lparr>tasks = tasks',
                  tracking = \<lparr>currentTask = None, startTime = None, pausedTime = None,
                              isPaused = False, sessions = sessions (tracking st)\<rparr>\<rparr>)))"

definition pauseTracking :: "int \<Rightarrow> state \<Rightarrow> error + state" where
  "pauseTracking now st =
     (if \<not> truthy (currentTask (tracking st)) then Inl NoActiveSessionToPause
      else if isPaused (tracking st) then Inl AlreadyPaused
      else Inr (st\<lparr>tracking := (tracking st)\<lparr>pausedTime := Some now, isPaused := True\<rparr>\<rparr>))"

definition resumeTracking :: "int \<Rightarrow> state \<Rightarrow> error + state" where
  "resumeTracking now st =
     (if \<not> truthy (currentTask (tracking st)) then Inl NoActiveSession
      else if \<not> isPaused (tracking st) then Inl NoPausedSession
      else
        (let pausedStart = date_of (pausedTime (tracking st));
             resumeTime = now;
             pausedDuration = resumeTime - pausedStart;
             originalStart = date_of (startTime (tracking st));
             adjustedStart = originalStart + pausedDuration
         in Inr (st\<lparr>tracking :=
                      (tracking st)\<lparr>startTime := Some adjustedStart, pausedTime := None,
                                    isPaused := False\<rparr>\<rparr>)))"

record status =
  isTracking :: bool
  st_currentTask :: "string option"
  st_startTime :: "int option"
  st_isPaused :: bool
  elapsedTime :: int

definition getStatus :: "int \<Rightarrow> state \<Rightarrow> status" where
  "getStatus now st =
     (if \<not> truthy (currentTask (tracking st))
      then \<lparr>isTracking = False, st_currentTask = None, st_startTime = None,
            st_isPaused = False, elapsedTime = 0\<rparr>
      else
        (let startT = date_of (startTime (tracking st));
             elapsed = (if isPaused (tracking st)
                        then date_of (pausedTime (tracking st)) - startT
                        else now - startT)
         in \<lparr>isTracking = True, st_currentTask = currentTask (tracking st),
             st_startTime = Some startT, st_isPaused = isPaused (tracking st),
             elapsedTime = max 0 elapsed\<rparr>))"


section \<open>Goal registry (goals.js)\<close>

text \<open>
  A goal object maps a period name to a target in milliseconds. \<^verbatim>\<open>setGoal\<close> receives
  the period as a string and validates it; the queries and \<^verbatim>\<open>removeGoal\<close> are
  modelled for the four recognised periods, so the \<^verbatim>\<open>default\<close> branch of
  \<^verbatim>\<open>getTimeRangeForPeriod\<close> (which throws) has no counterpart.
\<close>

datatype period = Daily | Weekly | Monthly | Yearly

fun period_name :: "period \<Rightarrow> string" where
  "period_name Daily = ''daily''"
| "period_name Weekly = ''weekly''"
| "period_name Monthly = ''monthly''"
| "period_name Yearly = ''yearly''"

definition VALID_PERIODS :: "string list" where
  "VALID_PERIODS = [''daily'', ''weekly'', ''monthly'', ''yearly'']"

definition isValidGoalPeriod :: "string \<Rightarrow> bool" where
  "isValidGoalPeriod p = (p \<in> set VALID_PERIODS)"

definition loadGoals :: "state \<Rightarrow> int js_object js_object" where
  "loadGoals st =
     foldl (\<lambda>goals taskId.
              case map_of (tasks st) taskId of
                None \<Rightarrow> goals
              | Some t \<Rightarrow>
                  (case t_goals t of
                     None \<Rightarrow> goals
                   | Some g \<Rightarrow> AList.update taskId g goals))
       [] (js_keys (tasks st))"

definition saveGoals :: "int js_object js_object \<Rightarrow> state \<Rightarrow> state" where
  "saveGoals goals st =
     (let cleared = map (\<lambda>(k, t). (k, t\<lparr>t_goals := None\<rparr>)) (tasks st);
          tasks' =
            foldl (\<lambda>ts taskId.
                     case js_get ts taskId of
                       Own t \<Rightarrow> AList.update taskId (t\<lparr>t_goals := map_of goals taskId\<rparr>) ts
                     | _ \<Rightarrow> ts)
              cleared (js_keys goals)
      in st\<lparr>tasks := tasks'\<rparr>)"

text \<open>
  The result \<open>Inr (isUpdate, st')\<close> carries the flag that chooses between the words
  ``updated'' and ``set'' in the success message. When \<^verbatim>\<open>goals[taskId]\<close> is an
  inherited member, the assignment \<^verbatim>\<open>goals[taskId][period] = duration\<close> lands on
  that member and \<^verbatim>\<open>goals\<close> keeps its own properties; in a process that has
  just started the member has no property of that name yet, so the flag is false.
\<close>

definition setGoal :: "string \<Rightarrow> string \<Rightarrow> int \<Rightarrow> state \<Rightarrow> error + (bool \<times> state)" where
  "setGoal taskId p duration st =
     (if \<not> isValidGoalPeriod p then Inl InvalidGoalPeriod
      else if duration \<le> 0 then Inl GoalNotPositive
      else
        (case getTask taskId st of
           Undefined \<Rightarrow> Inl (TaskDoesNotExist taskId)
         | _ \<Rightarrow>
             (let goals = loadGoals st;
                  goals1 = (case js_get goals taskId of
                              Undefined \<Rightarrow> AList.update taskId [] goals
                            | _ \<Rightarrow> goals)
              in case js_get goals1 taskId of
                   Own g \<Rightarrow>
                     (let isUpdate = (js_get g p \<noteq> Undefined);
                          goals2 = AList.update taskId (AList.update p duration g) goals1
                      in Inr (isUpdate, saveGoals goals2 st))
                 | _ \<Rightarrow> Inr (False, saveGoals goals1 st))))"

text \<open>\<^verbatim>\<open>taskGoals[period]\<close> for one of the four period names.\<close>

definition goal_for :: "int js_object \<Rightarrow> period \<Rightarrow> int option" where
  "goal_for g p = (case js_get g (period_name p) of Own n \<Rightarrow> Some n | _ \<Rightarrow> None)"

definition removeGoal :: "string \<Rightarrow> period option \<Rightarrow> state \<Rightarrow> error + state" where
  "removeGoal taskId p st =
     (let goals = loadGoals st
      in case p of
           Some q \<Rightarrow>
             (case js_get goals taskId of
                Own g \<Rightarrow>
                  (case goal_for g q of
                     None \<Rightarrow> Inl (NoGoalForPeriod (period_name q) taskId)
                   | Some n \<Rightarrow>
                       if n = 0 then Inl (NoGoalForPeriod (period_name q) taskId)
                       else
                         (let g' = AList.delete (period_name q) g;
                              goals' = (if js_keys g' = [] then AList.delete taskId goals
                                        else AList.update taskId g' goals)
                          in Inr (saveGoals goals' st)))
              | _ \<Rightarrow> Inl (NoGoalForPeriod (period_name q) taskId))
         | None \<Rightarrow>
             (case js_get goals taskId of
                Undefined \<Rightarrow> Inl (NoGoals taskId)
              | _ \<Rightarrow> Inr (saveGoals (AList.delete taskId goals) st)))"

text \<open>
  \<^verbatim>\<open>goals[taskId] || {}\<close>. An inherited member has none of the four period names
  as a property, so it reads like the empty object here.
\<close>

definition getTaskGoals :: "string \<Rightarrow> state \<Rightarrow> int js_object" where
  "getTaskGoals taskId st = (case js_get (loadGoals st) taskId of Own g \<Rightarrow> g | _ \<Rightarrow> [])"


section \<open>Calendar\<close>

text \<open>
  The date-fns functions and the \<^verbatim>\<open>Date\<close> constructor are a parameter of the model.
  \<open>sameDayMonthsBack today i\<close> is \<^verbatim>\<open>new Date(y, m - i, d)\<close> and
  \<open>sameDayYearsBack today i\<close> is \<^verbatim>\<open>new Date(y - i, m, d)\<close> for the local date
  \<open>(y, m, d)\<close> of \<open>today\<close>; the week functions are the ones with
  \<^verbatim>\<open>weekStartsOn: 1\<close>.
\<close>

record calendar =
  startOfDay :: "int \<Rightarrow> int"
  endOfDay :: "int \<Rightarrow> int"
  startOfWeek :: "int \<Rightarrow> int"
  endOfWeek :: "int \<Rightarrow> int"
  startOfMonth :: "int \<Rightarrow> int"
  endOfMonth :: "int \<Rightarrow> int"
  startOfYear :: "int \<Rightarrow> int"
  endOfYear :: "int \<Rightarrow> int"
  subDays :: "int \<Rightarrow> nat \<Rightarrow> int"
  sameDayMonthsBack :: "int \<Rightarrow> nat \<Rightarrow> int"
  sameDayYearsBack :: "int \<Rightarrow> nat \<Rightarrow> int"
  eachDayOfInterval :: "int \<Rightarrow> int \<Rightarrow> int list"
  eachWeekOfInterval :: "int \<Rightarrow> int \<Rightarrow> int list"
  eachMonthOfInterval :: "int \<Rightarrow> int \<Rightarrow> int list"

text \<open>
  Membership in a closed interval whose start is not after its end, which is what the
  start and end functions of one date deliver.
\<close>

definition isWithinInterval :: "int \<Rightarrow> int \<Rightarrow> int \<Rightarrow> bool" where
  "isWithinInterval date start end = (start \<le> date \<and> date \<le> end)"

definition getTimeRangeForPeriod :: "calendar \<Rightarrow> period \<Rightarrow> int \<Rightarrow> int \<times> int" where
  "getTimeRangeForPeriod cal p targetDate =
     (case p of
        Daily \<Rightarrow> (startOfDay cal targetDate, endOfDay cal targetDate)
      | Weekly \<Rightarrow> (startOfWeek cal targetDate, endOfWeek cal targetDate)
      | Monthly \<Rightarrow> (startOfMonth cal targetDate, endOfMonth cal targetDate)
      | Yearly \<Rightarrow> (startOfYear cal targetDate, endOfYear cal targetDate))"


section \<open>Goal progress and streaks (goals.js)\<close>

definition getActualTimeForPeriod :: "calendar \<Rightarrow> string \<Rightarrow> period \<Rightarrow> int \<Rightarrow> state \<Rightarrow> int" where
  "getActualTimeForPeriod cal taskId p targetDate st =
     (case getTask taskId st of
        Own t \<Rightarrow>
          (let (start, end) = getTimeRangeForPeriod cal p targetDate
           in foldl (\<lambda>total s. total + s_duration s) 0
                (filter (\<lambda>s. isWithinInterval (s_startTime s) start end) (t_sessions t)))
      | _ \<Rightarrow> 0)"




record streak =
  currentStreak :: nat
  longestStreak :: nat
  totalAchieved :: nat

definition checkDate :: "calendar \<Rightarrow> period \<Rightarrow> int \<Rightarrow> nat \<Rightarrow> int" where
  "checkDate cal p today i =
     (case p of
        Daily \<Rightarrow> subDays cal today i
      | Weekly \<Rightarrow> subDays cal today (i * 7)
      | Monthly \<Rightarrow> sameDayMonthsBack cal today i
      | Yearly \<Rightarrow> sameDayYearsBack cal today i)"

text \<open>
  One pass of the loop body for index \<open>i\<close>, on the three counters that are returned
  paired with \<^verbatim>\<open>tempStreak\<close>.
\<close>

definition streak_body :: "bool \<Rightarrow> nat \<Rightarrow> streak \<times> nat \<Rightarrow> streak \<times> nat" where
  "streak_body achieved i v =
     (let (s, tempStreak) = v
      in if achieved
         then
           (let total = totalAchieved s + 1;
                temp = tempStreak + 1;
                cur = (if i = 0 then temp else currentStreak s)
            in (\<lparr>currentStreak = cur, longestStreak = max (longestStreak s) temp,
                 totalAchieved = total\<rparr>, temp))
         else
           (\<lparr>currentStreak = (if i = 0 then 0 else currentStreak s),
             longestStreak = longestStreak s, totalAchieved = totalAchieved s\<rparr>, 0))"

definition goalAchieved :: "calendar \<Rightarrow> string \<Rightarrow> period \<Rightarrow> int \<Rightarrow> int \<Rightarrow> state \<Rightarrow> nat \<Rightarrow> bool" where
  "goalAchieved cal taskId p g today st i =
     (getActualTimeForPeriod cal taskId p (checkDate cal p today i) st \<ge> g)"

definition getGoalStreak :: "calendar \<Rightarrow> string \<Rightarrow> period \<Rightarrow> int \<Rightarrow> state \<Rightarrow> streak" where
  "getGoalStreak cal taskId p today st =
     (case goal_for (getTaskGoals taskId st) p of
        None \<Rightarrow> \<lparr>currentStreak = 0, longestStreak = 0, totalAchieved = 0\<rparr>
      | Some g \<Rightarrow>
          if g = 0 then \<lparr>currentStreak = 0, longestStreak = 0, totalAchieved = 0\<rparr>
          else
            fst (foldl (\<lambda>v i. streak_body (goalAchieved cal taskId p g today st i) i v)
                   (\<lparr>currentStreak = 0, longestStreak = 0, totalAchieved = 0\<rparr>, 0)
                   [0 ..< 30]))"


section \<open>Aggregation engine (analytics.js)\<close>

definition filterSessionsByDateRange :: "session list \<Rightarrow> int \<Rightarrow> int \<Rightarrow> session list" where
  "filterSessionsByDateRange ss startDate endDate =
     filter (\<lambda>s. isWithinInterval (s_startTime s) startDate endDate) ss"

record task_group =
  g_name :: string
  g_totalTime :: int
  g_sessions :: "session list"

text \<open>
  The loop of \<^verbatim>\<open>groupSessionsByTask\<close> over the object \<^verbatim>\<open>grouped\<close>. For a
  session whose task name is inherited from the prototype the test
  \<^verbatim>\<open>!grouped[session.task]\<close> is false, no group is created, and
  \<^verbatim>\<open>.sessions.push\<close> on the inherited member throws.
\<close>

fun group_loop :: "session list \<Rightarrow> task_group js_object \<Rightarrow> error + task_group js_object" where
  "group_loop [] grouped = Inr grouped"
| "group_loop (s # ss) grouped =
     (case js_get grouped (s_task s) of
        Undefined \<Rightarrow>
          group_loop ss
            (AList.update (s_task s)
               \<lparr>g_name = s_task s, g_totalTime = 0 + s_duration s, g_sessions = [s]\<rparr> grouped)
      | Own g \<Rightarrow>
          group_loop ss
            (AList.update (s_task s)
               (g\<lparr>g_totalTime := g_totalTime g + s_duration s,
                  g_sessions := g_sessions g @ [s]\<rparr>) grouped)
      | Inherited \<Rightarrow> Inl TypeError)"

definition groupSessionsByTask :: "session list \<Rightarrow> error + task_group js_object" where
  "groupSessionsByTask ss = group_loop ss []"

definition allSessions :: "state \<Rightarrow> session list" where
  "allSessions st = concat (map t_sessions (js_values (tasks st)))"

text \<open>
  A report without its label (\<^verbatim>\<open>period\<close> is a display string that depends on the
  clock and on \<^verbatim>\<open>format\<close>). \<open>a_tasks\<close> is \<^verbatim>\<open>taskArray\<close>: the groups by
  descending total, equal totals in enumeration order.
\<close>

record summary =
  a_startDate :: int
  a_endDate :: int
  a_totalTime :: int
  a_tasks :: "task_group list"

record bucket =
  b_date :: int
  b_totalTime :: int
  b_tasks :: "task_group js_object"

record week_bucket =
  weekStart :: int
  weekEnd :: int
  wb_totalTime :: int
  wb_tasks :: "task_group js_object"

record weekly_report = summary +
  dailyBreakdown :: "bucket list"

record monthly_report = summary +
  weeklyBreakdown :: "week_bucket list"

record yearly_report = summary +
  monthlyBreakdown :: "bucket list"

text \<open>
  The statements shared by the four report functions: collect, filter, group, total and
  rank. The result also carries the filtered sessions, which the breakdowns filter again.
\<close>

definition intervalSummary :: "int \<Rightarrow> int \<Rightarrow> state \<Rightarrow> error + (session list \<times> summary)" where
  "intervalSummary startDate endDate st =
     (let inRange = filterSessionsByDateRange (allSessions st) startDate endDate
      in case groupSessionsByTask inRange of
           Inl e \<Rightarrow> Inl e
         | Inr groupedByTask \<Rightarrow>
             (let total = foldl (\<lambda>sum t. sum + g_totalTime t) 0 (js_values groupedByTask);
                  taskArray = sort_key (\<lambda>t. - g_totalTime t) (js_values groupedByTask)
              in Inr (inRange,
                      \<lparr>a_startDate = startDate, a_endDate = endDate, a_totalTime = total,
                       a_tasks = taskArray\<rparr>)))"

fun map_result :: "('a \<Rightarrow> error + 'b) \<Rightarrow> 'a list \<Rightarrow> error + 'b list" where
  "map_result f [] = Inr []"
| "map_result f (x # xs) =
     (case f x of
        Inl e \<Rightarrow> Inl e
      | Inr y \<Rightarrow> (case map_result f xs of Inl e \<Rightarrow> Inl e | Inr ys \<Rightarrow> Inr (y # ys)))"

definition sub_bucket :: "session list \<Rightarrow> int \<Rightarrow> int \<Rightarrow> error + (int \<times> task_group js_object)" where
  "sub_bucket ss startDate endDate =
     (let sub = filterSessionsByDateRange ss startDate endDate;
          subTotal = foldl (\<lambda>sum s. sum + s_duration s) 0 sub
      in case groupSessionsByTask sub of
           Inl e \<Rightarrow> Inl e
         | Inr g \<Rightarrow> Inr (subTotal, g))"

definition getDailyAnalytics :: "calendar \<Rightarrow> int \<Rightarrow> state \<Rightarrow> error + summary" where
  "getDailyAnalytics cal targetDate st =
     (case intervalSummary (startOfDay cal targetDate) (endOfDay cal targetDate) st of
        Inl e \<Rightarrow> Inl e
      | Inr (daySessions, rep) \<Rightarrow> Inr rep)"

definition getWeeklyAnalytics :: "calendar \<Rightarrow> int \<Rightarrow> state \<Rightarrow> error + weekly_report" where
  "getWeeklyAnalytics cal targetDate st =
     (let wStart = startOfWeek cal targetDate; wEnd = endOfWeek cal targetDate
      in case intervalSummary wStart wEnd st of
           Inl e \<Rightarrow> Inl e
         | Inr (weekSessions, rep) \<Rightarrow>
             (case map_result
                     (\<lambda>day. case sub_bucket weekSessions (startOfDay cal day) (endOfDay cal day) of
                              Inl e \<Rightarrow> Inl e
                            | Inr (dayTotal, g) \<Rightarrow>
                                Inr \<lparr>b_date = day, b_totalTime = dayTotal, b_tasks = g\<rparr>)
                     (eachDayOfInterval cal wStart wEnd) of
                Inl e \<Rightarrow> Inl e
              | Inr days \<Rightarrow>
                  Inr \<lparr>a_startDate = a_startDate rep, a_endDate = a_endDate rep,
                       a_totalTime = a_totalTime rep, a_tasks = a_tasks rep,
                       dailyBreakdown = days\<rparr>))"

definition getMonthlyAnalytics :: "calendar \<Rightarrow> int \<Rightarrow> state \<Rightarrow> error + monthly_report" where
  "getMonthlyAnalytics cal targetDate st =
     (let mStart = startOfMonth cal targetDate; mEnd = endOfMonth cal targetDate
      in case intervalSummary mStart mEnd st of
           Inl e \<Rightarrow> Inl e
         | Inr (monthSessions, rep) \<Rightarrow>
             (case map_result
                     (\<lambda>ws. case sub_bucket monthSessions ws (endOfWeek cal ws) of
                             Inl e \<Rightarrow> Inl e
                           | Inr (weekTotal, g) \<Rightarrow>
                               Inr \<lparr>weekStart = ws, weekEnd = endOfWeek cal ws,
                                    wb_totalTime = weekTotal, wb_tasks = g\<rparr>)
                     (eachWeekOfInterval cal mStart mEnd) of
                Inl e \<Rightarrow> Inl e
              | Inr weeks \<Rightarrow>
                  Inr \<lparr>a_startDate = a_startDate rep, a_endDate = a_endDate rep,
                       a_totalTime = a_totalTime rep, a_tasks = a_tasks rep,
                       weeklyBreakdown = weeks\<rparr>))"

definition getYearlyAnalytics :: "calendar \<Rightarrow> int \<Rightarrow> state \<Rightarrow> error + yearly_report" where
  "getYearlyAnalytics cal targetDate st =
     (let yStart = startOfYear cal targetDate; yEnd = endOfYear cal targetDate
      in case intervalSummary yStart yEnd st of
           Inl e \<Rightarrow> Inl e
         | Inr (yearSessions, rep) \<Rightarrow>
             (case map_result
                     (\<lambda>ms. case sub_bucket yearSessions ms (endOfMonth cal ms) of
                             Inl e \<Rightarrow> Inl e
                           | Inr (monthTotal, g) \<Rightarrow>
                               Inr \<lparr>b_date = ms, b_totalTime = monthTotal, b_tasks = g\<rparr>)
                     (eachMonthOfInterval cal yStart yEnd) of
                Inl e \<Rightarrow> Inl e
              | Inr months \<Rightarrow>
                  Inr \<lparr>a_startDate = a_startDate rep, a_endDate = a_endDate rep,
                       a_totalTime = a_totalTime rep, a_tasks = a_tasks rep,
                       monthlyBreakdown = months\<rparr>))"


section \<open>Runs of operations\<close>

text \<open>
  The state-changing operations, each with its arguments and clock reading. A failing
  operation leaves the stored state as it was.
\<close>

datatype operation =
    CreateTask string int
  | DeleteTask string
  | StartTracking string int
  | StopTracking int
  | PauseTracking int
  | ResumeTracking int
  | SetGoal string string int
  | RemoveGoal string "period option"

fun step :: "operation \<Rightarrow> state \<Rightarrow> state" where
  "step (CreateTask n now) st = (case createTask n now st of Inr (_, st') \<Rightarrow> st' | Inl _ \<Rightarrow> st)"
| "step (DeleteTask n) st = (case deleteTask n st of Inr st' \<Rightarrow> st' | Inl _ \<Rightarrow> st)"
| "step (StartTracking n now) st =
     (case startTracking n now st of Inr (_, st') \<Rightarrow> st' | Inl _ \<Rightarrow> st)"
| "step (StopTracking now) st = (case stopTracking now st of Inr (_, st') \<Rightarrow> st' | Inl _ \<Rightarrow> st)"
| "step (PauseTracking now) st = (case pauseTracking now st of Inr st' \<Rightarrow> st' | Inl _ \<Rightarrow> st)"
| "step (ResumeTracking now) st = (case resumeTracking now st of Inr st' \<Rightarrow> st' | Inl _ \<Rightarrow> st)"
| "step (SetGoal n p d) st = (case setGoal n p d st of Inr (_, st') \<Rightarrow> st' | Inl _ \<Rightarrow> st)"
| "step (RemoveGoal n p) st = (case removeGoal n p st of Inr st' \<Rightarrow> st' | Inl _ \<Rightarrow> st)"

fun run :: "operation list \<Rightarrow> state \<Rightarrow> state" where
  "run [] st = st"
| "run (x # xs) st = run xs (step x st)"


section \<open>Properties stated over the model\<close>

text \<open>The stored total of every task record is the sum of its sessions' durations.\<close>

definition task_total_ok :: "task \<Rightarrow> bool" where
  "task_total_ok t = (t_totalTime t = sum_list (map s_duration (t_sessions t)))"

definition totals_consistent :: "state \<Rightarrow> bool" where
  "totals_consistent st = list_all (\<lambda>e. task_total_ok (snd e)) (tasks st)"

text \<open>
  Every key of the task store is a name that the object prototype does not have, and
  every session is filed under the task it names.
\<close>

definition entry_wf :: "string \<times> task \<Rightarrow> bool" where
  "entry_wf e =
     (fst e \<notin> set object_prototype_keys
      \<and> list_all (\<lambda>s. s_task s = fst e) (t_sessions (snd e)))"

definition store_wf :: "state \<Rightarrow> bool" where
  "store_wf st = list_all entry_wf (tasks st)"

text \<open>A current task reference, when present, is an own key of the task store.\<close>

definition tracking_refers_to_stored :: "state \<Rightarrow> bool" where
  "tracking_refers_to_stored st =
     (case currentTask (tracking st) of
        None \<Rightarrow> True
      | Some k \<Rightarrow> map_of (tasks st) k \<noteq> None)"

text \<open>
  A run in which no deleteTask names the task being tracked at that moment and no
  startTracking names a property of \<^verbatim>\<open>Object.prototype\<close>.
\<close>

fun op_allowed :: "operation \<Rightarrow> state \<Rightarrow> bool" where
  "op_allowed (DeleteTask n) st = (currentTask (tracking st) \<noteq> Some n)"
| "op_allowed (StartTracking n now) st = (n \<notin> set object_prototype_keys)"
| "op_allowed _ st = True"

fun run_allowed :: "operation list \<Rightarrow> state \<Rightarrow> bool" where
  "run_allowed [] st = True"
| "run_allowed (x # xs) st = (op_allowed x st \<and> run_allowed xs (step x st))"


text \<open>Length of the run of achieved instances that starts at the most recent one.\<close>

definition leading_run :: "bool list \<Rightarrow> nat" where
  "leading_run bs = length (takeWhile (\<lambda>b. b) bs)"


text \<open>
  Length of the longest run of achieved instances anywhere in the list: the longest of
  the runs that start at each position.
\<close>

fun longest_run :: "bool list \<Rightarrow> nat" where
  "longest_run [] = 0"
| "longest_run (b # bs) = max (leading_run (b # bs)) (longest_run bs)"


section \<open>A concrete calendar\<close>

text \<open>
  The proleptic Gregorian calendar in UTC, to run the model on dated examples. Days are
  counted from 1970-01-01 (a Thursday); months are numbered from 1.
\<close>

definition ms_per_day :: int where
  "ms_per_day = 86400000"

definition days_from_civil :: "int \<Rightarrow> int \<Rightarrow> int \<Rightarrow> int" where
  "days_from_civil y m d =
     (let y' = (if m \<le> 2 then y - 1 else y);
          era = y' div 400;
          yoe = y' - era * 400;
          doy = (153 * (if m > 2 then m - 3 else m + 9) + 2) div 5 + d - 1;
          doe = yoe * 365 + yoe div 4 - yoe div 100 + doy
      in era * 146097 + doe - 719468)"

definition civil_from_days :: "int \<Rightarrow> int \<times> int \<times> int" where
  "civil_from_days z =
     (let z' = z + 719468;
          era = z' div 146097;
          doe = z' - era * 146097;
          yoe = (doe - doe div 1460 + doe div 36524 - doe div 146096) div 365;
          doy = doe - (365 * yoe + yoe div 4 - yoe div 100);
          mp = (5 * doy + 2) div 153;
          d = doy - (153 * mp + 2) div 5 + 1;
          m = (if mp < 10 then mp + 3 else mp - 9);
          y = yoe + era * 400
      in (if m \<le> 2 then y + 1 else y, m, d))"

definition day_number :: "int \<Rightarrow> int" where
  "day_number t = t div ms_per_day"

definition month_index :: "int \<Rightarrow> int" where
  "month_index t = (case civil_from_days (day_number t) of (y, m, d) \<Rightarrow> y * 12 + (m - 1))"

definition month_start :: "int \<Rightarrow> int" where
  "month_start k = days_from_civil (k div 12) (k mod 12 + 1) 1 * ms_per_day"

definition day_of_month :: "int \<Rightarrow> int" where
  "day_of_month t = (case civil_from_days (day_number t) of (y, m, d) \<Rightarrow> d)"

definition utc_startOfDay :: "int \<Rightarrow> int" where
  "utc_startOfDay t = day_number t * ms_per_day"

definition utc_endOfDay :: "int \<Rightarrow> int" where
  "utc_endOfDay t = day_number t * ms_per_day + ms_per_day - 1"

definition utc_startOfWeek :: "int \<Rightarrow> int" where
  "utc_startOfWeek t = (day_number t - (day_number t + 3) mod 7) * ms_per_day"

definition utc_endOfWeek :: "int \<Rightarrow> int" where
  "utc_endOfWeek t = utc_startOfWeek t + 7 * ms_per_day - 1"

definition utc_startOfMonth :: "int \<Rightarrow> int" where
  "utc_startOfMonth t = month_start (month_index t)"

definition utc_endOfMonth :: "int \<Rightarrow> int" where
  "utc_endOfMonth t = month_start (month_index t + 1) - 1"

definition utc_startOfYear :: "int \<Rightarrow> int" where
  "utc_startOfYear t = month_start (12 * (month_index t div 12))"

definition utc_endOfYear :: "int \<Rightarrow> int" where
  "utc_endOfYear t = month_start (12 * (month_index t div 12) + 12) - 1"

definition utc_subDays :: "int \<Rightarrow> nat \<Rightarrow> int" where
  "utc_subDays t n = t - int n * ms_per_day"

definition utc_sameDayMonthsBack :: "int \<Rightarrow> nat \<Rightarrow> int" where
  "utc_sameDayMonthsBack t n =
     month_start (month_index t - int n) + (day_of_month t - 1) * ms_per_day"

definition utc_sameDayYearsBack :: "int \<Rightarrow> nat \<Rightarrow> int" where
  "utc_sameDayYearsBack t n =
     month_start (month_index t - 12 * int n) + (day_of_month t - 1) * ms_per_day"

definition utc_eachDayOfInterval :: "int \<Rightarrow> int \<Rightarrow> int list" where
  "utc_eachDayOfInterval s e =
     map (\<lambda>k. (day_number s + int k) * ms_per_day)
       [0 ..< nat (day_number e - day_number s + 1)]"

definition utc_eachWeekOfInterval :: "int \<Rightarrow> int \<Rightarrow> int list" where
  "utc_eachWeekOfInterval s e =
     map (\<lambda>k. utc_startOfWeek s + int k * (7 * ms_per_day))
       [0 ..< nat ((utc_startOfWeek e - utc_startOfWeek s) div (7 * ms_per_day) + 1)]"

definition utc_eachMonthOfInterval :: "int \<Rightarrow> int \<Rightarrow> int list" where
  "utc_eachMonthOfInterval s e =
     map (\<lambda>k. month_start (month_index s + int k))
       [0 ..< nat (month_index e - month_index s + 1)]"

definition utc_calendar :: calendar where
  "utc_calendar =
     \<lparr>startOfDay = utc_startOfDay,
      endOfDay = utc_endOfDay,
      startOfWeek = utc_startOfWeek,
      endOfWeek = utc_endOfWeek,
      startOfMonth = utc_startOfMonth,
      endOfMonth = utc_endOfMonth,
      startOfYear = utc_startOfYear,
      endOfYear = utc_endOfYear,
      subDays = utc_subDays,
      sameDayMonthsBack = utc_sameDayMonthsBack,
      sameDayYearsBack = utc_sameDayYearsBack,
      eachDayOfInterval = utc_eachDayOfInterval,
      eachWeekOfInterval = utc_eachWeekOfInterval,
      eachMonthOfInterval = utc_eachMonthOfInterval\<rparr>"

text \<open>Timestamp of midnight UTC on a calendar date, and a session on a task.\<close>

definition utc :: "int \<Rightarrow> int \<Rightarrow> int \<Rightarrow> int" where
  "utc y m d = days_from_civil y m d * ms_per_day"

definition hours :: "int \<Rightarrow> int" where
  "hours h = h * 3600000"


section \<open>Example states\<close>

text \<open>States reached from the initial one, used to run the operations on dated input.\<close>

definition ex_created :: state where
  "ex_created = run [CreateTask ''coding'' 1000] initial_state"

definition ex_paused :: state where
  "ex_paused =
     run [CreateTask ''coding'' 1000, StartTracking ''coding'' 2000, PauseTracking 5000]
       initial_state"

definition ex_orphaned :: state where
  "ex_orphaned =
     run [CreateTask ''coding'' 1000, StartTracking ''coding'' 2000, DeleteTask ''coding'']
       initial_state"

text \<open>A one-hour daily goal met on 5 and on 6 March 2024, two hours each day.\<close>

definition ex_two_days :: state where
  "ex_two_days =
     run [CreateTask ''coding'' 0,
          SetGoal ''coding'' ''daily'' (hours 1),
          StartTracking ''coding'' (utc 2024 3 5 + hours 9),
          StopTracking (utc 2024 3 5 + hours 11),
          StartTracking ''coding'' (utc 2024 3 6 + hours 9),
          StopTracking (utc 2024 3 6 + hours 11)] initial_state"


text \<open>Runs that delete a task while another one, or the same one, is being tracked.\<close>

definition ops_delete_other :: "operation list" where
  "ops_delete_other =
     [CreateTask ''coding'' 1000, CreateTask ''email'' 1500, StartTracking ''coding'' 2000,
      DeleteTask ''email'', PauseTracking 5000]"

definition ops_delete_tracked :: "operation list" where
  "ops_delete_tracked =
     [CreateTask ''coding'' 1000, StartTracking ''coding'' 2000, DeleteTask ''coding'']"






section \<open>Stopping, pausing and resuming\<close>


text \<open>
  C1. In a Paused state (current task set, start and pause timestamps set) stopTracking
  succeeds, and the session it returns and the session it appends to the task record both
  have duration pause timestamp minus start timestamp, whatever the time of the stop call.
\<close>

theorem stop_while_paused_duration:
  assumes "currentTask (tracking st) = Some t" and "t \<noteq> []"
    and "startTime (tracking st) = Some s" and "pausedTime (tracking st) = Some p"
  shows "\<exists>r st'. stopTracking now st = Inr (r, st')
           \<and> r_duration r = p - s
           \<and> s_duration (r_session r) = p - s
           \<and> (\<forall>tk. map_of (tasks st) t = Some tk \<longrightarrow>
                 map_of (tasks st') t =
                   Some (tk\<lparr>t_sessions := t_sessions tk @ [r_session r],
                           t_totalTime := t_totalTime tk + (p - s)\<rparr>))"
  using assms
  by (simp add: stopTracking_def truthy_def date_of_def getTask_def js_get_def Let_def
      update_conv')

theorem stop_while_paused_duration_witness:
  "\<exists>r st' tk. stopTracking 9000 ex_paused = Inr (r, st')
           \<and> r_duration r = 3000
           \<and> s_duration (r_session r) = 3000
           \<and> map_of (tasks st') ''coding'' = Some tk
           \<and> t_totalTime tk = 3000
           \<and> map s_duration (t_sessions tk) = [3000]"
proof -
  have h1: "currentTask (tracking ex_paused) = Some ''coding''" by code_simp
  have h2: "''coding'' \<noteq> []" by simp
  have h3: "startTime (tracking ex_paused) = Some 2000" by code_simp
  have h4: "pausedTime (tracking ex_paused) = Some 5000" by code_simp
  have h5: "map_of (tasks ex_paused) ''coding'' =
              Some \<lparr>t_id = ''coding'', t_name = ''coding'', t_created = 1000,
                    t_totalTime = 0, t_sessions = [], t_goals = None\<rparr>"
    by code_simp
  from stop_while_paused_duration [OF h1 h2 h3 h4, of 9000] h5
  show ?thesis by auto
qed

text \<open>
  C2. When start succeeds (the task is found, nothing is being tracked), the run
  start at \<open>t0\<close>, pause at \<open>t1\<close>, resume at \<open>t2\<close>, stop at \<open>t3\<close> goes through:
  resume stores the start timestamp \<open>t0 + (t2 - t1)\<close> and clears the pause fields, and
  the finalized session, returned and appended to the task record, has duration
  \<open>(t3 - t0) - (t2 - t1)\<close>.
\<close>

theorem pause_resume_shifts_start:
  assumes "getTask t st \<noteq> Undefined" and "t \<noteq> []"
    and "\<not> truthy (currentTask (tracking st))"
  shows "\<exists>r0 st1 st2 st3 r st4.
           startTracking t t0 st = Inr (r0, st1)
         \<and> pauseTracking t1 st1 = Inr st2
         \<and> resumeTracking t2 st2 = Inr st3
         \<and> startTime (tracking st3) = Some (t0 + (t2 - t1))
         \<and> pausedTime (tracking st3) = None
         \<and> \<not> isPaused (tracking st3)
         \<and> stopTracking t3 st3 = Inr (r, st4)
         \<and> r_duration r = (t3 - t0) - (t2 - t1)
         \<and> s_duration (r_session r) = (t3 - t0) - (t2 - t1)
         \<and> (\<forall>tk. map_of (tasks st) t = Some tk \<longrightarrow>
               map_of (tasks st4) t =
                 Some (tk\<lparr>t_sessions := t_sessions tk @ [r_session r],
                         t_totalTime := t_totalTime tk + ((t3 - t0) - (t2 - t1))\<rparr>))"
  using assms
  by (cases "getTask t st")
     (auto simp add: startTracking_def pauseTracking_def resumeTracking_def stopTracking_def
        truthy_def date_of_def getTask_def js_get_def Let_def update_conv'
        split: option.splits if_splits)

theorem pause_resume_shifts_start_witness:
  "\<exists>r0 st1 st2 st3 r st4 tk.
           startTracking ''coding'' 2000 ex_created = Inr (r0, st1)
         \<and> pauseTracking 5000 st1 = Inr st2
         \<and> resumeTracking 6000 st2 = Inr st3
         \<and> startTime (tracking st3) = Some 3000
         \<and> pausedTime (tracking st3) = None
         \<and> \<not> isPaused (tracking st3)
         \<and> stopTracking 9000 st3 = Inr (r, st4)
         \<and> r_duration r = 6000
         \<and> s_duration (r_session r) = 6000
         \<and> map_of (tasks st4) ''coding'' = Some tk
         \<and> t_totalTime tk = 6000
         \<and> map s_duration (t_sessions tk) = [6000]"
proof -
  have h1: "getTask ''coding'' ex_created \<noteq> Undefined" by code_simp
  have h2: "''coding'' \<noteq> []" by simp
  have h3: "\<not> truthy (currentTask (tracking ex_created))" by code_simp
  have h4: "map_of (tasks ex_created) ''coding'' =
              Some \<lparr>t_id = ''coding'', t_name = ''coding'', t_created = 1000,
                    t_totalTime = 0, t_sessions = [], t_goals = None\<rparr>"
    by code_simp
  from pause_resume_shifts_start [OF h1 h2 h3, of 2000 5000 6000 9000] h4
  show ?thesis by auto
qed

text \<open>
  C10. When tracking is active and the current task is not a key of the task store,
  stopTracking succeeds with the computed duration (now minus start, minus the open pause
  interval if there is one), leaves the task store exactly as it was, and resets the
  tracking state to Idle.
\<close>

theorem stop_with_missing_task:
  assumes "currentTask (tracking st) = Some t" and "t \<noteq> []"
    and "map_of (tasks st) t = None"
  shows "stopTracking now st =
           (let d = (now - date_of (startTime (tracking st)))
                    - (case pausedTime (tracking st) of None \<Rightarrow> 0 | Some p \<Rightarrow> now - p)
            in Inr (\<lparr>r_duration = d,
                     r_session = \<lparr>s_task = t, s_startTime = date_of (startTime (tracking st)),
                                  s_endTime = now, s_duration = d\<rparr>\<rparr>,
                    \<lparr>tasks = tasks st,
                     tracking = \<lparr>currentTask = None, startTime = None, pausedTime = None,
                                 isPaused = False, sessions = sessions (tracking st)\<rparr>\<rparr>))"
  using assms
  by (simp add: stopTracking_def truthy_def getTask_def js_get_def Let_def)

theorem stop_with_missing_task_witness:
  "stopTracking 9000 ex_orphaned =
     Inr (\<lparr>r_duration = 7000,
           r_session = \<lparr>s_task = ''coding'', s_startTime = 2000, s_endTime = 9000,
                        s_duration = 7000\<rparr>\<rparr>,
          \<lparr>tasks = [],
           tracking = \<lparr>currentTask = None, startTime = None, pausedTime = None,
                       isPaused = False, sessions = []\<rparr>\<rparr>)"
proof -
  have h1: "currentTask (tracking ex_orphaned) = Some ''coding''" by code_simp
  have h2: "''coding'' \<noteq> []" by simp
  have h3: "map_of (tasks ex_orphaned) ''coding'' = None" by code_simp
  have h4: "tasks ex_orphaned = []" by code_simp
  have h5: "startTime (tracking ex_orphaned) = Some 2000" by code_simp
  have h6: "pausedTime (tracking ex_orphaned) = None" by code_simp
  have h7: "sessions (tracking ex_orphaned) = []" by code_simp
  show ?thesis
    using stop_with_missing_task [OF h1 h2 h3, of 9000]
    by (simp add: h4 h5 h6 h7 date_of_def Let_def)
qed


section \<open>Goal streaks\<close>

lemma ex_two_days_eq:
  "ex_two_days =
     \<lparr>tasks =
        [(''coding'',
          \<lparr>t_id = ''coding'', t_name = ''coding'', t_created = 0, t_totalTime = 14400000,
           t_sessions =
             [\<lparr>s_task = ''coding'', s_startTime = 1709629200000,
               s_endTime = 1709636400000, s_duration = 7200000\<rparr>,
              \<lparr>s_task = ''coding'', s_startTime = 1709715600000,
               s_endTime = 1709722800000, s_duration = 7200000\<rparr>],
           t_goals = Some [(''daily'', 3600000)]\<rparr>)],
      tracking = \<lparr>currentTask = None, startTime = None, pausedTime = None,
                  isPaused = False, sessions = []\<rparr>\<rparr>"
  by code_simp

lemma noon_6_march: "utc 2024 3 6 + hours 12 = 1709726400000"
  by code_simp

lemma one_hour: "hours 1 = 3600000"
  by code_simp

lemma streak_body_later:
  "i \<noteq> 0 \<Longrightarrow> currentStreak (fst (streak_body a i v)) = currentStreak (fst v)"
  by (cases v) (simp add: streak_body_def Let_def)

lemma streak_fold_later:
  "\<forall>i \<in> set is. i \<noteq> 0 \<Longrightarrow>
   currentStreak (fst (foldl (\<lambda>v i. streak_body (a i) i v) v is)) = currentStreak (fst v)"
  by (induction "is" arbitrary: v) (simp_all add: streak_body_later)

lemma streak_fold_current:
  "currentStreak
     (fst (foldl (\<lambda>v i. streak_body (a i) i v)
             (\<lparr>currentStreak = 0, longestStreak = 0, totalAchieved = 0\<rparr>, 0) [0 ..< 30]))
   = (if a 0 then 1 else 0)"
proof -
  have "[0 ..< 30] = 0 # [1 ..< 30]" by (simp add: upt_conv_Cons)
  then show ?thesis
    by (simp add: streak_fold_later) (simp add: streak_body_def)
qed

lemma streak_fold_total:
  "totalAchieved (fst (foldl (\<lambda>v i. streak_body (a i) i v) v is))
   = totalAchieved (fst v) + length (filter a is)"
  by (induction "is" arbitrary: v) (auto simp: streak_body_def Let_def split: prod.splits)

lemma leading_le_longest: "leading_run bs \<le> longest_run bs"
  by (cases bs) (simp_all add: leading_run_def)

lemma streak_fold_longest:
  "snd v \<le> longestStreak (fst v) \<Longrightarrow>
   longestStreak (fst (foldl (\<lambda>v i. streak_body (a i) i v) v is))
   = max (longestStreak (fst v))
       (max (snd v + leading_run (map a is)) (longest_run (map a is)))"
proof (induction "is" arbitrary: v)
  case Nil
  then show ?case by (simp add: leading_run_def)
next
  case (Cons i "is")
  obtain s t where v: "v = (s, t)" by (cases v)
  show ?case
  proof (cases "a i")
    case True
    let ?v = "streak_body True i v"
    have b: "snd ?v = t + 1" "longestStreak (fst ?v) = max (longestStreak s) (t + 1)"
      by (simp_all add: v streak_body_def Let_def)
    then have "snd ?v \<le> longestStreak (fst ?v)" by simp
    from Cons.IH [OF this] True b show ?thesis
      by (simp add: v leading_run_def) linarith
  next
    case False
    let ?v = "streak_body False i v"
    have b: "snd ?v = 0" "longestStreak (fst ?v) = longestStreak s"
      by (simp_all add: v streak_body_def Let_def)
    then have "snd ?v \<le> longestStreak (fst ?v)" by simp
    from Cons.IH [OF this] False b Cons.prems
      leading_le_longest [of "map a is"] show ?thesis
      by (simp add: v leading_run_def)
  qed
qed

text \<open>
  What the loop returns for a task with a non-zero goal: longestStreak and totalAchieved
  are the longest run and the number of achieved instances among the 30; currentStreak
  is 1 or 0 according to the most recent instance alone.
\<close>

lemma getGoalStreak_values:
  assumes "goal_for (getTaskGoals taskId st) p = Some g" and "g \<noteq> 0"
  shows "getGoalStreak cal taskId p today st =
           \<lparr>currentStreak = (if goalAchieved cal taskId p g today st 0 then 1 else 0),
            longestStreak = longest_run (map (goalAchieved cal taskId p g today st) [0 ..< 30]),
            totalAchieved = length (filter (goalAchieved cal taskId p g today st) [0 ..< 30])\<rparr>"
proof -
  let ?a = "goalAchieved cal taskId p g today st"
  let ?r = "fst (foldl (\<lambda>v i. streak_body (?a i) i v)
             (\<lparr>currentStreak = 0, longestStreak = 0, totalAchieved = 0\<rparr>, 0) [0 ..< 30])"
  have "currentStreak ?r = (if ?a 0 then 1 else 0)" by (rule streak_fold_current)
  moreover have "totalAchieved ?r = length (filter ?a [0 ..< 30])"
    by (simp add: streak_fold_total)
  moreover have "longestStreak ?r = longest_run (map ?a [0 ..< 30])"
    using leading_le_longest [of "map ?a [0 ..< 30]"]
    by (simp add: streak_fold_longest)
  ultimately have "?r = \<lparr>currentStreak = (if ?a 0 then 1 else 0),
            longestStreak = longest_run (map ?a [0 ..< 30]),
            totalAchieved = length (filter ?a [0 ..< 30])\<rparr>"
    by (cases ?r) simp
  with assms show ?thesis by (simp add: getGoalStreak_def)
qed

lemma upt_30: "[0 ..< 30] = 0 # Suc 0 # 2 # [3 ..< 30]"
  by (simp add: upt_conv_Cons)

lemma leading_run_two:
  "a 0 \<Longrightarrow> a (Suc 0) \<Longrightarrow> \<not> a 2 \<Longrightarrow> leading_run (map a [0 ..< 30]) = 2"
  by (simp add: leading_run_def upt_30)

text \<open>
  C3. With the daily goal achieved on the most recent day and on the day before it (and
  on none of the 28 days before those), the run of achieved instances counting back from
  the most recent one has length 2, and getGoalStreak returns currentStreak 1
  (longestStreak 2 and totalAchieved 2 are as claimed): \<^verbatim>\<open>currentStreak\<close> is
  assigned in the iteration \<^verbatim>\<open>i === 0\<close> only.
\<close>

theorem streak_current_stops_at_one:
  "leading_run (map (goalAchieved utc_calendar ''coding'' Daily (hours 1)
                       (utc 2024 3 6 + hours 12) ex_two_days) [0 ..< 30]) = 2
   \<and> getGoalStreak utc_calendar ''coding'' Daily (utc 2024 3 6 + hours 12) ex_two_days
       = \<lparr>currentStreak = 1, longestStreak = 2, totalAchieved = 2\<rparr>"
proof -
  let ?a = "goalAchieved utc_calendar ''coding'' Daily (hours 1)
              (utc 2024 3 6 + hours 12) ex_two_days"
  have a0: "?a 0"
    unfolding ex_two_days_eq noon_6_march one_hour by code_simp
  have a1: "?a (Suc 0)"
    unfolding ex_two_days_eq noon_6_march one_hour by code_simp
  have a2: "\<not> ?a 2"
    unfolding ex_two_days_eq noon_6_march one_hour by code_simp
  have s: "getGoalStreak utc_calendar ''coding'' Daily (utc 2024 3 6 + hours 12) ex_two_days
       = \<lparr>currentStreak = 1, longestStreak = 2, totalAchieved = 2\<rparr>"
    unfolding ex_two_days_eq noon_6_march by code_simp
  from leading_run_two [of ?a, OF a0 a1 a2] s show ?thesis by simp
qed

section \<open>Invariants of the stored state\<close>

lemma list_all_update:
  "list_all P al \<Longrightarrow> P (k, v) \<Longrightarrow> list_all P (AList.update k v al)"
  by (induction al) auto

lemma list_all_delete:
  "list_all P al \<Longrightarrow> list_all P (AList.delete k al)"
  by (induction al) auto

lemma js_get_Own_mem: "js_get al k = Own v \<Longrightarrow> (k, v) \<in> set al"
  by (auto simp: js_get_def split: option.splits if_splits dest: map_of_SomeD)

subsection \<open>Totals\<close>

lemma saveGoals_fold_preserves:
  assumes "\<And>k t g. P (k, t) \<Longrightarrow> P (k, t\<lparr>t_goals := g\<rparr>)"
  shows "list_all P ts \<Longrightarrow>
   list_all P
     (foldl (\<lambda>ts taskId.
               case js_get ts taskId of
                 Own t \<Rightarrow> AList.update taskId (t\<lparr>t_goals := map_of goals taskId\<rparr>) ts
               | _ \<Rightarrow> ts) ts ks)"
proof (induction ks arbitrary: ts)
  case Nil
  then show ?case by simp
next
  case (Cons k ks)
  show ?case
  proof (cases "js_get ts k")
    case (Own t)
    then have "(k, t) \<in> set ts" by (rule js_get_Own_mem)
    with Cons.prems have "P (k, t)" by (auto simp: list_all_iff)
    then have "P (k, t\<lparr>t_goals := map_of goals k\<rparr>)" by (rule assms)
    with Cons.prems
    have "list_all P (AList.update k (t\<lparr>t_goals := map_of goals k\<rparr>) ts)"
      by (simp add: list_all_update)
    with Cons.IH Own show ?thesis by simp
  qed (use Cons in simp_all)
qed

lemma saveGoals_preserves:
  assumes "\<And>k t g. P (k, t) \<Longrightarrow> P (k, t\<lparr>t_goals := g\<rparr>)"
    and "list_all P (tasks st)"
  shows "list_all P (tasks (saveGoals goals st))"
proof -
  from assms
  have "list_all P (map (\<lambda>(k, t). (k, t\<lparr>t_goals := None\<rparr>)) (tasks st))"
    by (auto simp: list_all_iff)
  then show ?thesis
    by (simp add: saveGoals_def Let_def saveGoals_fold_preserves [of P, OF assms(1)])
qed

lemma saveGoals_totals:
  "totals_consistent st \<Longrightarrow> totals_consistent (saveGoals goals st)"
  unfolding totals_consistent_def
  by (rule saveGoals_preserves) (simp_all add: task_total_ok_def)

lemma step_totals:
  assumes "totals_consistent st"
  shows "totals_consistent (step x st)"
proof (cases x)
  case (CreateTask n now)
  with assms show ?thesis
    by (auto simp: createTask_def totals_consistent_def task_total_ok_def Let_def
        intro!: list_all_update split: js_prop.splits)
next
  case (DeleteTask n)
  with assms show ?thesis
    by (auto simp: deleteTask_def totals_consistent_def intro!: list_all_delete
        split: js_prop.splits)
next
  case (StartTracking n now)
  with assms show ?thesis
    by (auto simp: startTracking_def totals_consistent_def split: js_prop.splits)
next
  case (StopTracking now)
  show ?thesis
  proof (cases "getTask (the (currentTask (tracking st))) st")
    case (Own t)
    then have "(the (currentTask (tracking st)), t) \<in> set (tasks st)"
      unfolding getTask_def by (rule js_get_Own_mem)
    with assms have "task_total_ok t"
      by (auto simp: totals_consistent_def list_all_iff)
    with assms Own StopTracking show ?thesis
      by (auto simp: stopTracking_def totals_consistent_def task_total_ok_def Let_def
          intro!: list_all_update)
  qed (use assms StopTracking in \<open>auto simp: stopTracking_def totals_consistent_def Let_def\<close>)
next
  case (PauseTracking now)
  with assms show ?thesis
    by (auto simp: pauseTracking_def totals_consistent_def)
next
  case (ResumeTracking now)
  with assms show ?thesis
    by (auto simp: resumeTracking_def totals_consistent_def Let_def)
next
  case (SetGoal n p d)
  with assms show ?thesis
    by (auto simp: setGoal_def Let_def saveGoals_totals split: js_prop.splits)
next
  case (RemoveGoal n p)
  with assms show ?thesis
    by (auto simp: removeGoal_def Let_def saveGoals_totals split: js_prop.splits option.splits)
qed

lemma run_totals: "totals_consistent st \<Longrightarrow> totals_consistent (run xs st)"
  by (induction xs arbitrary: st) (simp_all add: step_totals)

text \<open>
  C7. After every sequence of operations from the initial state (task creation and
  deletion, start, pause, resume, stop, setting and removing goals, failed calls
  included), every task record's stored totalTime equals the sum of the durations of the
  sessions in its session list.
\<close>

theorem totals_consistent_after_run: "totals_consistent (run xs initial_state)"
  by (rule run_totals) (simp add: totals_consistent_def initial_state_def)

theorem totals_consistent_after_run_witness:
  "totals_consistent ex_two_days
   \<and> map (\<lambda>e. (t_totalTime (snd e), map s_duration (t_sessions (snd e)))) (tasks ex_two_days)
       = [(14400000, [7200000, 7200000])]"
proof -
  have "totals_consistent ex_two_days"
    unfolding ex_two_days_def by (rule totals_consistent_after_run)
  then show ?thesis by (simp add: ex_two_days_eq)
qed

subsection \<open>The current task reference\<close>

lemma refers_alt:
  "tracking_refers_to_stored st =
     (\<forall>k. currentTask (tracking st) = Some k \<longrightarrow> k \<in> fst ` set (tasks st))"
  by (auto simp: tracking_refers_to_stored_def map_of_eq_None_iff split: option.splits)

lemma saveGoals_fold_keys:
  "fst ` set
     (foldl (\<lambda>ts taskId.
               case js_get ts taskId of
                 Own t \<Rightarrow> AList.update taskId (t\<lparr>t_goals := map_of goals taskId\<rparr>) ts
               | _ \<Rightarrow> ts) ts ks) = fst ` set ts"
proof (induction ks arbitrary: ts)
  case Nil
  then show ?case by simp
next
  case (Cons k ks)
  show ?case
  proof (cases "js_get ts k")
    case (Own t)
    then have "k \<in> fst ` set ts" by (force dest: js_get_Own_mem)
    then have "fst ` set (AList.update k (t\<lparr>t_goals := map_of goals k\<rparr>) ts) = fst ` set ts"
      by (auto simp: dom_update)
    with Cons.IH [of "AList.update k (t\<lparr>t_goals := map_of goals k\<rparr>) ts"] Own
    show ?thesis by simp
  qed (use Cons.IH in simp_all)
qed

lemma saveGoals_keys: "fst ` set (tasks (saveGoals goals st)) = fst ` set (tasks st)"
  by (simp add: saveGoals_def Let_def saveGoals_fold_keys image_image case_prod_beta)

lemma saveGoals_tracking: "tracking (saveGoals goals st) = tracking st"
  by (simp add: saveGoals_def Let_def)

lemma saveGoals_refers:
  "tracking_refers_to_stored st \<Longrightarrow> tracking_refers_to_stored (saveGoals goals st)"
  by (simp add: refers_alt saveGoals_keys saveGoals_tracking)

lemma step_refers:
  assumes "tracking_refers_to_stored st" and "op_allowed x st"
  shows "tracking_refers_to_stored (step x st)"
proof (cases x)
  case (CreateTask n now)
  with assms show ?thesis
    by (auto simp: createTask_def tracking_refers_to_stored_def Let_def update_conv'
        split: js_prop.splits option.splits)
next
  case (DeleteTask n)
  with assms show ?thesis
    by (auto simp: deleteTask_def tracking_refers_to_stored_def delete_conv'
        split: js_prop.splits option.splits)
next
  case (StartTracking n now)
  with assms show ?thesis
    by (auto simp: startTracking_def getTask_def js_get_def tracking_refers_to_stored_def
        split: js_prop.splits option.splits if_splits)
next
  case (StopTracking now)
  with assms show ?thesis
    by (auto simp: stopTracking_def tracking_refers_to_stored_def Let_def
        split: option.splits)
next
  case (PauseTracking now)
  with assms show ?thesis
    by (auto simp: pauseTracking_def tracking_refers_to_stored_def split: option.splits)
next
  case (ResumeTracking now)
  with assms show ?thesis
    by (auto simp: resumeTracking_def tracking_refers_to_stored_def Let_def
        split: option.splits)
next
  case (SetGoal n p d)
  with assms show ?thesis
    by (auto simp: setGoal_def Let_def saveGoals_refers split: js_prop.splits)
next
  case (RemoveGoal n p)
  with assms show ?thesis
    by (auto simp: removeGoal_def Let_def saveGoals_refers split: js_prop.splits option.splits)
qed

lemma run_refers:
  "tracking_refers_to_stored st \<Longrightarrow> run_allowed xs st \<Longrightarrow>
   tracking_refers_to_stored (run xs st)"
  by (induction xs arbitrary: st) (simp_all add: step_refers)

text \<open>
  C4, as stated, fails: create a task, start tracking it, delete it. deleteTask does not
  look at the tracking state, so the current task reference then names a task that is
  not in the store.
\<close>

theorem delete_leaves_dangling_reference:
  "\<not> tracking_refers_to_stored (run ops_delete_tracked initial_state)"
  by code_simp

text \<open>
  C4, amended. After every sequence of operations from the initial state in which
  deleteTask is never applied to the task being tracked at that moment and startTracking
  is never given a property name of the object prototype, a current task reference names
  a task that is in the store.
\<close>

theorem tracking_refers_to_stored_after_allowed_run:
  "run_allowed xs initial_state \<Longrightarrow> tracking_refers_to_stored (run xs initial_state)"
  by (rule run_refers) (simp_all add: tracking_refers_to_stored_def initial_state_def)

theorem tracking_refers_to_stored_after_allowed_run_witness:
  "run_allowed ops_delete_other initial_state
   \<and> tracking_refers_to_stored (run ops_delete_other initial_state)
   \<and> currentTask (tracking (run ops_delete_other initial_state)) = Some ''coding''"
proof -
  have h: "run_allowed ops_delete_other initial_state" by code_simp
  have c: "currentTask (tracking (run ops_delete_other initial_state)) = Some ''coding''"
    by code_simp
  from h tracking_refers_to_stored_after_allowed_run [OF h] c show ?thesis by simp
qed

section \<open>Goal progress\<close>

lemma set_js_entries: "set (js_entries obj) = set obj"
  by (auto simp: js_entries_def)

lemma set_js_keys: "set (js_keys obj) = fst ` set obj"
  by (simp add: js_keys_def set_js_entries)

lemma loadGoals_fold:
  "map_of
     (foldl (\<lambda>goals taskId.
               case map_of ts taskId of
                 None \<Rightarrow> goals
               | Some t \<Rightarrow>
                   (case t_goals t of
                      None \<Rightarrow> goals
                    | Some g \<Rightarrow> AList.update taskId g goals)) acc ks) k =
   (if k \<in> set ks
    then (case map_of ts k of
            None \<Rightarrow> map_of acc k
          | Some t \<Rightarrow> (case t_goals t of None \<Rightarrow> map_of acc k | Some g \<Rightarrow> Some g))
    else map_of acc k)"
  by (induction ks arbitrary: acc) (auto simp: update_conv' split: option.splits)

lemma loadGoals_lookup:
  "map_of (loadGoals st) k =
     (case map_of (tasks st) k of None \<Rightarrow> None | Some t \<Rightarrow> t_goals t)"
  by (auto simp: loadGoals_def loadGoals_fold set_js_keys map_of_eq_None_iff
      split: option.splits dest: map_of_SomeD intro: rev_image_eqI)







section \<open>Aggregation totals\<close>























lemma group_loop_defined:
  "\<forall>s \<in> set ss. s_task s \<notin> set object_prototype_keys \<Longrightarrow>
   \<exists>res. group_loop ss grouped = Inr res"
proof (induction ss arbitrary: grouped)
  case Nil
  then show ?case by simp
next
  case (Cons s ss)
  then have "js_get grouped (s_task s) \<noteq> Inherited"
    by (simp add: js_get_def split: option.splits)
  with Cons show ?case
    by (cases "js_get grouped (s_task s)") simp_all
qed

lemma groupSessionsByTask_defined:
  "\<forall>s \<in> set ss. s_task s \<notin> set object_prototype_keys \<Longrightarrow>
   \<exists>res. groupSessionsByTask ss = Inr res"
  by (simp add: groupSessionsByTask_def group_loop_defined)

lemma map_result_defined:
  "(\<And>x. \<exists>y. f x = Inr y) \<Longrightarrow> \<exists>ys. map_result f xs = Inr ys"
proof (induction xs)
  case Nil
  then show ?case by simp
next
  case (Cons x xs)
  from Cons.prems obtain y where "f x = Inr y" by blast
  moreover from Cons obtain ys where "map_result f xs = Inr ys" by blast
  ultimately show ?case by simp
qed

lemma sub_bucket_defined:
  "\<forall>s \<in> set ss. s_task s \<notin> set object_prototype_keys \<Longrightarrow>
   \<exists>y. sub_bucket ss lo hi = Inr y"
proof -
  assume a: "\<forall>s \<in> set ss. s_task s \<notin> set object_prototype_keys"
  then have "\<forall>s \<in> set (filterSessionsByDateRange ss lo hi).
               s_task s \<notin> set object_prototype_keys"
    by (simp add: filterSessionsByDateRange_def)
  from groupSessionsByTask_defined [OF this] show ?thesis
    by (auto simp: sub_bucket_def Let_def)
qed

lemma intervalSummary_defined:
  assumes "\<forall>s \<in> set (allSessions st). s_task s \<notin> set object_prototype_keys"
  shows "\<exists>rep. intervalSummary lo hi st =
            Inr (filterSessionsByDateRange (allSessions st) lo hi, rep)"
proof -
  from assms have "\<forall>s \<in> set (filterSessionsByDateRange (allSessions st) lo hi).
               s_task s \<notin> set object_prototype_keys"
    by (simp add: filterSessionsByDateRange_def)
  from groupSessionsByTask_defined [OF this] show ?thesis
    by (auto simp: intervalSummary_def Let_def)
qed

lemma weekly_defined:
  assumes "\<forall>s \<in> set (allSessions st). s_task s \<notin> set object_prototype_keys"
  shows "\<exists>r. getWeeklyAnalytics cal d st = Inr r"
proof -
  let ?lo = "startOfWeek cal d" and ?hi = "endOfWeek cal d"
  let ?ss = "filterSessionsByDateRange (allSessions st) ?lo ?hi"
  from intervalSummary_defined [OF assms] obtain rep where
    s: "intervalSummary ?lo ?hi st = Inr (?ss, rep)" by blast
  from assms have ok: "\<forall>s \<in> set ?ss. s_task s \<notin> set object_prototype_keys"
    by (simp add: filterSessionsByDateRange_def)
  have "\<exists>ys. map_result
          (\<lambda>day. case sub_bucket ?ss (startOfDay cal day) (endOfDay cal day) of
                   Inl e \<Rightarrow> Inl e
                 | Inr (dayTotal, g) \<Rightarrow>
                     Inr \<lparr>b_date = day, b_totalTime = dayTotal, b_tasks = g\<rparr>)
          (eachDayOfInterval cal ?lo ?hi) = Inr ys"
  proof (rule map_result_defined)
    fix day
    from sub_bucket_defined [OF ok] obtain y where
      "sub_bucket ?ss (startOfDay cal day) (endOfDay cal day) = Inr y" by blast
    then show "\<exists>y. (case sub_bucket ?ss (startOfDay cal day) (endOfDay cal day) of
                   Inl e \<Rightarrow> Inl e
                 | Inr (dayTotal, g) \<Rightarrow>
                     Inr \<lparr>b_date = day, b_totalTime = dayTotal, b_tasks = g\<rparr>) = Inr y"
      by (cases y) simp
  qed
  with s show ?thesis
    by (auto simp: getWeeklyAnalytics_def Let_def)
qed

lemma yearly_defined:
  assumes "\<forall>s \<in> set (allSessions st). s_task s \<notin> set object_prototype_keys"
  shows "\<exists>r. getYearlyAnalytics cal d st = Inr r"
proof -
  let ?lo = "startOfYear cal d" and ?hi = "endOfYear cal d"
  let ?ss = "filterSessionsByDateRange (allSessions st) ?lo ?hi"
  from intervalSummary_defined [OF assms] obtain rep where
    s: "intervalSummary ?lo ?hi st = Inr (?ss, rep)" by blast
  from assms have ok: "\<forall>s \<in> set ?ss. s_task s \<notin> set object_prototype_keys"
    by (simp add: filterSessionsByDateRange_def)
  have "\<exists>ys. map_result
          (\<lambda>ms. case sub_bucket ?ss ms (endOfMonth cal ms) of
                   Inl e \<Rightarrow> Inl e
                 | Inr (monthTotal, g) \<Rightarrow>
                     Inr \<lparr>b_date = ms, b_totalTime = monthTotal, b_tasks = g\<rparr>)
          (eachMonthOfInterval cal ?lo ?hi) = Inr ys"
  proof (rule map_result_defined)
    fix ms
    from sub_bucket_defined [OF ok] obtain y where
      "sub_bucket ?ss ms (endOfMonth cal ms) = Inr y" by blast
    then show "\<exists>y. (case sub_bucket ?ss ms (endOfMonth cal ms) of
                   Inl e \<Rightarrow> Inl e
                 | Inr (monthTotal, g) \<Rightarrow>
                     Inr \<lparr>b_date = ms, b_totalTime = monthTotal, b_tasks = g\<rparr>) = Inr y"
      by (cases y) simp
  qed
  with s show ?thesis
    by (auto simp: getYearlyAnalytics_def Let_def)
qed









section \<open>Names inherited from the object prototype\<close>

lemma valid_name_not_blank:
  assumes "isValidTaskName s"
  shows "trim s \<noteq> []"
proof -
  from assms have ne: "s \<noteq> []" and ok: "\<forall>c \<in> set s. c \<in> set task_name_chars"
    by (auto simp: isValidTaskName_def list_all_iff split: if_splits)
  have nows: "\<not> js_whitespace c" if "c \<in> set task_name_chars" for c
    using that by (auto simp: task_name_chars_def js_whitespace_def)
  from ne ok nows have "dropWhile js_whitespace s = s"
    by (cases s) auto
  moreover from ne ok nows have "dropWhile js_whitespace (rev s) = rev s"
    by (cases "rev s") (auto simp: dest: arg_cong [where f = set])
  ultimately show ?thesis using ne by (simp add: trim_def)
qed

text \<open>
  A well-formed name that is neither a key of the store nor a property name of the object
  prototype is accepted, and getTask then returns the new record; a string that is not
  well-formed is rejected.
\<close>

lemma createTask_accepts:
  assumes "isValidTaskName s" and "s \<notin> set object_prototype_keys"
    and "map_of (tasks st) s = None"
  shows "\<exists>st'. createTask s now st =
           Inr (\<lparr>t_id = s, t_name = s, t_created = now, t_totalTime = 0, t_sessions = [],
                 t_goals = None\<rparr>, st')
         \<and> getTask s st' =
             Own \<lparr>t_id = s, t_name = s, t_created = now, t_totalTime = 0, t_sessions = [],
                  t_goals = None\<rparr>"
proof -
  from assms(1) have "s \<noteq> []" by (auto simp: isValidTaskName_def split: if_splits)
  with assms valid_name_not_blank [OF assms(1)] show ?thesis
    by (simp add: createTask_def js_get_def getTask_def Let_def update_conv')
qed

lemma createTask_rejects:
  assumes "\<not> isValidTaskName s"
  shows "createTask s now st = Inl TaskNameEmpty \<or> createTask s now st = Inl TaskNameInvalid"
  using assms by (simp add: createTask_def)

text \<open>
  C9. The name \<^verbatim>\<open>constructor\<close> matches \<^verbatim>\<open>[A-Za-z0-9_-]+\<close> and is not a key
  of the initial, empty task store, yet createTask rejects it as already existing: the
  test \<^verbatim>\<open>existingTasks[taskName]\<close> finds the member inherited from the prototype.
\<close>

theorem createTask_rejects_prototype_name:
  "isValidTaskName ''constructor''
   \<and> map_of (tasks initial_state) ''constructor'' = None
   \<and> createTask ''constructor'' now initial_state = Inl (TaskAlreadyExists ''constructor'')"
  by (simp add: createTask_def isValidTaskName_def task_name_chars_def initial_state_def
      js_get_def object_prototype_keys_def trim_def js_whitespace_def)

lemma map_of_clear:
  "map_of (map (\<lambda>(k, t). (k, t\<lparr>t_goals := None\<rparr>)) ts) k =
     map_option (\<lambda>t. t\<lparr>t_goals := None\<rparr>) (map_of ts k)"
  by (induction ts) auto

lemma saveGoals_fold_lookup:
  "map_of
     (foldl (\<lambda>ts taskId.
               case js_get ts taskId of
                 Own t \<Rightarrow> AList.update taskId (t\<lparr>t_goals := map_of goals taskId\<rparr>) ts
               | _ \<Rightarrow> ts) ts ks) k =
   (if k \<in> set ks then map_option (\<lambda>t. t\<lparr>t_goals := map_of goals k\<rparr>) (map_of ts k)
    else map_of ts k)"
proof (induction ks arbitrary: ts)
  case Nil
  then show ?case by simp
next
  case (Cons a ks)
  show ?case
  proof (cases "js_get ts a")
    case (Own t)
    then have "map_of ts a = Some t"
      by (simp add: js_get_def split: option.splits if_splits)
    with Own Cons.IH [of "AList.update a (t\<lparr>t_goals := map_of goals a\<rparr>) ts"]
    show ?thesis by (auto simp: update_conv')
  next
    case Undefined
    then have "map_of ts a = None" by (simp add: js_get_def split: option.splits)
    with Undefined Cons.IH [of ts] show ?thesis by auto
  next
    case Inherited
    then have "map_of ts a = None" by (simp add: js_get_def split: option.splits)
    with Inherited Cons.IH [of ts] show ?thesis by auto
  qed
qed

lemma saveGoals_lookup:
  "map_of (tasks (saveGoals goals st)) k =
     map_option (\<lambda>t. t\<lparr>t_goals := map_of goals k\<rparr>) (map_of (tasks st) k)"
proof -
  have "k \<notin> set (js_keys goals) \<Longrightarrow> map_of goals k = None"
    by (simp add: set_js_keys map_of_eq_None_iff)
  then show ?thesis
    by (cases "map_of (tasks st) k")
       (auto simp: saveGoals_def Let_def saveGoals_fold_lookup map_of_clear)
qed

lemma period_not_inherited: "isValidGoalPeriod p \<Longrightarrow> p \<notin> set object_prototype_keys"
  by (auto simp: isValidGoalPeriod_def VALID_PERIODS_def object_prototype_keys_def)

text \<open>
  setGoal fails on an unknown period, on a duration that is not positive, and on a name
  that reads as \<^verbatim>\<open>undefined\<close> in the store. For a stored task whose name the
  prototype does not have, it writes exactly the entry for that task and period and
  reports whether the entry was there before.
\<close>

lemma setGoal_rejects:
  "\<not> isValidGoalPeriod p \<Longrightarrow> setGoal taskId p d st = Inl InvalidGoalPeriod"
  "isValidGoalPeriod p \<Longrightarrow> d \<le> 0 \<Longrightarrow> setGoal taskId p d st = Inl GoalNotPositive"
  "isValidGoalPeriod p \<Longrightarrow> 0 < d \<Longrightarrow> getTask taskId st = Undefined \<Longrightarrow>
     setGoal taskId p d st = Inl (TaskDoesNotExist taskId)"
  by (simp_all add: setGoal_def)

lemma setGoal_stores:
  assumes "map_of (tasks st) taskId = Some t" and "taskId \<notin> set object_prototype_keys"
    and "isValidGoalPeriod p" and "0 < d"
  shows "\<exists>st'. setGoal taskId p d st =
            Inr (map_of (case t_goals t of None \<Rightarrow> [] | Some g \<Rightarrow> g) p \<noteq> None, st')
         \<and> tracking st' = tracking st
         \<and> (\<forall>k. map_of (tasks st') k =
               (if k = taskId
                then Some (t\<lparr>t_goals :=
                              Some (AList.update p d
                                      (case t_goals t of None \<Rightarrow> [] | Some g \<Rightarrow> g))\<rparr>)
                else map_of (tasks st) k))"
proof -
  let ?gs = "case t_goals t of None \<Rightarrow> [] | Some g \<Rightarrow> g"
  let ?goals = "loadGoals st"
  let ?goals1 = "case js_get ?goals taskId of
                   Undefined \<Rightarrow> AList.update taskId [] ?goals | _ \<Rightarrow> ?goals"
  from assms(1) have lg: "map_of ?goals taskId = t_goals t"
    by (simp add: loadGoals_lookup)
  with assms(2) have g1: "js_get ?goals1 taskId = Own ?gs"
    by (cases "t_goals t") (simp_all add: js_get_def update_conv')
  have others: "map_of ?goals1 k = map_of ?goals k" if "k \<noteq> taskId" for k
    using that by (auto simp: update_conv' split: js_prop.splits)
  let ?goals2 = "AList.update taskId (AList.update p d ?gs) ?goals1"
  from assms(1) have found: "getTask taskId st \<noteq> Undefined"
    by (simp add: getTask_def js_get_def)
  from period_not_inherited [OF assms(3)]
  have upd: "(js_get ?gs p \<noteq> Undefined) = (map_of ?gs p \<noteq> None)"
    by (simp add: js_get_def split: option.splits)
  have res: "setGoal taskId p d st = Inr (map_of ?gs p \<noteq> None, saveGoals ?goals2 st)"
    using assms(3,4) found g1 upd
    by (cases "getTask taskId st") (simp_all add: setGoal_def Let_def)
  have look: "map_of (tasks (saveGoals ?goals2 st)) k =
               (if k = taskId then Some (t\<lparr>t_goals := Some (AList.update p d ?gs)\<rparr>)
                else map_of (tasks st) k)" for k
  proof (cases "k = taskId")
    case True
    with assms(1) show ?thesis by (simp add: saveGoals_lookup update_conv')
  next
    case False
    then have "map_of ?goals2 k = map_of ?goals k"
      by (simp add: update_conv' others)
    with False show ?thesis
      by (cases "map_of (tasks st) k") (simp_all add: saveGoals_lookup loadGoals_lookup)
  qed
  from res look show ?thesis by (auto simp: saveGoals_tracking)
qed

text \<open>
  C8. With a valid period and a positive duration, setGoal for the name
  \<^verbatim>\<open>toString\<close> on the initial, empty task store reports success (``goal set'')
  although no such task exists; nothing is stored.
\<close>

theorem setGoal_accepts_missing_task:
  "map_of (tasks initial_state) ''toString'' = None
   \<and> setGoal ''toString'' ''daily'' 1000 initial_state = Inr (False, initial_state)"
  by code_simp


section \<open>Reports of reachable states\<close>

lemma saveGoals_wf: "store_wf st \<Longrightarrow> store_wf (saveGoals goals st)"
  unfolding store_wf_def by (rule saveGoals_preserves) (simp_all add: entry_wf_def)

lemma js_get_Undefined: "js_get al k = Undefined \<Longrightarrow> k \<notin> set object_prototype_keys"
  by (simp add: js_get_def split: option.splits if_splits)

lemma step_wf:
  assumes "store_wf st"
  shows "store_wf (step x st)"
proof (cases x)
  case (CreateTask n now)
  with assms show ?thesis
    by (auto simp: createTask_def store_wf_def entry_wf_def Let_def
        intro!: list_all_update dest: js_get_Undefined split: js_prop.splits)
next
  case (DeleteTask n)
  with assms show ?thesis
    by (auto simp: deleteTask_def store_wf_def intro!: list_all_delete
        split: js_prop.splits)
next
  case (StartTracking n now)
  with assms show ?thesis
    by (auto simp: startTracking_def store_wf_def split: js_prop.splits)
next
  case (StopTracking now)
  show ?thesis
  proof (cases "getTask (the (currentTask (tracking st))) st")
    case (Own t)
    then have "(the (currentTask (tracking st)), t) \<in> set (tasks st)"
      unfolding getTask_def by (rule js_get_Own_mem)
    with assms have "entry_wf (the (currentTask (tracking st)), t)"
      by (auto simp: store_wf_def list_all_iff)
    with assms Own StopTracking show ?thesis
      by (auto simp: stopTracking_def store_wf_def entry_wf_def Let_def
          intro!: list_all_update)
  qed (use assms StopTracking in \<open>auto simp: stopTracking_def store_wf_def Let_def\<close>)
next
  case (PauseTracking now)
  with assms show ?thesis
    by (auto simp: pauseTracking_def store_wf_def)
next
  case (ResumeTracking now)
  with assms show ?thesis
    by (auto simp: resumeTracking_def store_wf_def Let_def)
next
  case (SetGoal n p d)
  with assms show ?thesis
    by (auto simp: setGoal_def Let_def saveGoals_wf split: js_prop.splits)
next
  case (RemoveGoal n p)
  with assms show ?thesis
    by (auto simp: removeGoal_def Let_def saveGoals_wf split: js_prop.splits option.splits)
qed

lemma run_wf: "store_wf st \<Longrightarrow> store_wf (run xs st)"
  by (induction xs arbitrary: st) (simp_all add: step_wf)

lemma store_wf_after_run: "store_wf (run xs initial_state)"
  by (rule run_wf) (simp add: store_wf_def initial_state_def)

lemma store_wf_sessions:
  assumes "store_wf st"
  shows "\<forall>s \<in> set (allSessions st). s_task s \<notin> set object_prototype_keys"
proof
  fix s
  assume "s \<in> set (allSessions st)"
  then obtain k t where kt: "(k, t) \<in> set (tasks st)" and s: "s \<in> set (t_sessions t)"
    by (auto simp: allSessions_def js_values_def set_js_entries)
  from assms kt have "entry_wf (k, t)" by (auto simp: store_wf_def list_all_iff)
  with s show "s_task s \<notin> set object_prototype_keys"
    by (auto simp: entry_wf_def list_all_iff)
qed

lemma daily_defined:
  assumes "\<forall>s \<in> set (allSessions st). s_task s \<notin> set object_prototype_keys"
  shows "\<exists>r. getDailyAnalytics cal d st = Inr r"
  using intervalSummary_defined [OF assms, of "startOfDay cal d" "endOfDay cal d"]
  by (auto simp: getDailyAnalytics_def)

lemma monthly_defined:
  assumes "\<forall>s \<in> set (allSessions st). s_task s \<notin> set object_prototype_keys"
  shows "\<exists>r. getMonthlyAnalytics cal d st = Inr r"
proof -
  let ?lo = "startOfMonth cal d" and ?hi = "endOfMonth cal d"
  let ?ss = "filterSessionsByDateRange (allSessions st) ?lo ?hi"
  from intervalSummary_defined [OF assms] obtain rep where
    s: "intervalSummary ?lo ?hi st = Inr (?ss, rep)" by blast
  from assms have ok: "\<forall>s \<in> set ?ss. s_task s \<notin> set object_prototype_keys"
    by (simp add: filterSessionsByDateRange_def)
  have "\<exists>ys. map_result
          (\<lambda>ws. case sub_bucket ?ss ws (endOfWeek cal ws) of
                   Inl e \<Rightarrow> Inl e
                 | Inr (weekTotal, g) \<Rightarrow>
                     Inr \<lparr>weekStart = ws, weekEnd = endOfWeek cal ws,
                          wb_totalTime = weekTotal, wb_tasks = g\<rparr>)
          (eachWeekOfInterval cal ?lo ?hi) = Inr ys"
  proof (rule map_result_defined)
    fix ws
    from sub_bucket_defined [OF ok] obtain y where
      "sub_bucket ?ss ws (endOfWeek cal ws) = Inr y" by blast
    then show "\<exists>y. (case sub_bucket ?ss ws (endOfWeek cal ws) of
                   Inl e \<Rightarrow> Inl e
                 | Inr (weekTotal, g) \<Rightarrow>
                     Inr \<lparr>weekStart = ws, weekEnd = endOfWeek cal ws,
                          wb_totalTime = weekTotal, wb_tasks = g\<rparr>) = Inr y"
      by (cases y) simp
  qed
  with s show ?thesis
    by (auto simp: getMonthlyAnalytics_def Let_def)
qed

lemma reports_defined_after_run:
  "\<exists>r. getDailyAnalytics cal d (run xs initial_state) = Inr r"
  "\<exists>r. getWeeklyAnalytics cal d (run xs initial_state) = Inr r"
  "\<exists>r. getMonthlyAnalytics cal d (run xs initial_state) = Inr r"
  "\<exists>r. getYearlyAnalytics cal d (run xs initial_state) = Inr r"
  using store_wf_sessions [OF store_wf_after_run, of xs]
  by (simp_all add: daily_defined weekly_defined monthly_defined yearly_defined)

end
